theory Spec2Isabelle
  imports Complex_Main "HOL-Library.Finite_Map" "HOL-Library.Char_ord" "HOL-Library.List_Lexorder"
begin

section \<open>Time\<close>

text \<open>
  A Go \<^verbatim>\<open>time.Time\<close> is modelled as the number of nanoseconds since the zero instant, so
  that \<^verbatim>\<open>IsZero\<close> holds of \<open>0\<close> only. \<^verbatim>\<open>t.Sub(u)\<close> is the duration in nanoseconds and
  \<^verbatim>\<open>Seconds()\<close> turns a duration into a number of seconds.

  Two idealisations are made throughout and are not repeated at every theorem:
  \<^item> \<^verbatim>\<open>float64\<close> is modelled by \<^typ>\<open>real\<close>: no rounding, no infinities, no NaN. In particular
    the quotient by a shelf life of zero is HOL's \<open>x / 0 = 0\<close>, where Go yields an infinity.
  \<^item> \<^verbatim>\<open>Duration\<close> and the \<^verbatim>\<open>int\<close> counters are modelled by \<^typ>\<open>int\<close>: the saturation of
    \<^verbatim>\<open>Sub\<close> beyond 292 years and the wrap-around of a counter after \<open>2 ^ 63\<close> increments
    are left out.
\<close>

type_synonym Time = int

type_synonym Duration = int

definition IsZero :: "Time \<Rightarrow> bool" where
  "IsZero t = (t = 0)"

definition Sub :: "Time \<Rightarrow> Time \<Rightarrow> Duration" where
  "Sub t u = t - u"

definition Seconds :: "Duration \<Rightarrow> real" where
  "Seconds d = real_of_int d / 1000000000"

section \<open>Orders (internal/order/order.go)\<close>

type_synonym Temperature = string

definition Hot :: Temperature where
  "Hot = ''hot''"

definition Cold :: Temperature where
  "Cold = ''cold''"

definition Frozen :: Temperature where
  "Frozen = ''frozen''"

record Order =
  ID :: string
  Name :: string
  Temp :: Temperature
  ShelfLife :: real
  DecayRate :: real
  CreatedAt :: Time
  PlacedOnShelfAt :: Time
  PlacedOnOverflow :: Time
  CurrentShelfType :: string
  WastedAt :: Time
  DeliveredAt :: Time

text \<open>
  \<^verbatim>\<open>NewOrder\<close> reads the clock for the identifier and for \<^verbatim>\<open>CreatedAt\<close>; the two readings
  are parameters here. Every runtime field starts as the zero value.
\<close>

definition NewOrder :: "string \<Rightarrow> string \<Rightarrow> Temperature \<Rightarrow> real \<Rightarrow> real \<Rightarrow> Time \<Rightarrow> Order" where
  "NewOrder ident name temp shelfLife decayRate created =
     \<lparr> ID = ident, Name = name, Temp = temp, ShelfLife = shelfLife, DecayRate = decayRate,
       CreatedAt = created, PlacedOnShelfAt = 0, PlacedOnOverflow = 0,
       CurrentShelfType = [], WastedAt = 0, DeliveredAt = 0 \<rparr>"

text \<open>The decay amount that \<^verbatim>\<open>CalculateValue\<close> accumulates in its two branches.\<close>

definition decayAmount :: "Order \<Rightarrow> Time \<Rightarrow> real" where
  "decayAmount o' now =
     (if IsZero (PlacedOnOverflow o') then
        (let elapsedTime = Seconds (Sub now (PlacedOnShelfAt o'))
         in DecayRate o' * elapsedTime)
      else
        (let elapsedTimePrimary = Seconds (Sub (PlacedOnOverflow o') (PlacedOnShelfAt o'));
             decayAmountPrimary = DecayRate o' * elapsedTimePrimary;
             elapsedTimeOverflow = Seconds (Sub now (PlacedOnOverflow o'));
             decayAmountOverflow = DecayRate o' * elapsedTimeOverflow
         in decayAmountPrimary + decayAmountOverflow))"

definition CalculateValue :: "Order \<Rightarrow> Time \<Rightarrow> real" where
  "CalculateValue o' now =
     (if IsZero (PlacedOnShelfAt o') then 1
      else
        (let remainingShelfLife = ShelfLife o' - decayAmount o' now
         in if remainingShelfLife \<le> 0 then 0
            else remainingShelfLife / ShelfLife o'))"


definition IsExpired :: "Order \<Rightarrow> Time \<Rightarrow> bool" where
  "IsExpired o' now = (CalculateValue o' now \<le> 0)"




section \<open>The store and the clock\<close>

text \<open>
  Shelves hold pointers to orders, and the caller keeps its own pointer to an order it has
  placed, so orders live in a store and a shelf maps identifiers to references. Every call
  of \<^verbatim>\<open>time.Now()\<close> takes the next reading of the clock: \<open>clock w n\<close> is the \<open>n\<close>-th reading
  and \<open>ticks w\<close> counts the readings taken so far. Nothing is assumed of the readings.
\<close>

type_synonym ref = nat

record World =
  heap :: "ref \<Rightarrow> Order"
  clock :: "nat \<Rightarrow> Time"
  ticks :: nat

definition Now :: "World \<Rightarrow> Time \<times> World" where
  "Now w = (clock w (ticks w), w\<lparr>ticks := Suc (ticks w)\<rparr>)"

definition modify :: "ref \<Rightarrow> (Order \<Rightarrow> Order) \<Rightarrow> World \<Rightarrow> World" where
  "modify r f w = w\<lparr>heap := (heap w)(r := f (heap w r))\<rparr>"

section \<open>Shelves (internal/shelves/shelf.go)\<close>

text \<open>
  Every operation of a shelf and of the manager runs under a mutex from its first statement to
  its last, so an operation is modelled as one step from the state before it to the state
  after it: it takes the shelf (or the manager) and the world and returns its result with the
  new shelf and the new world. A nil order pointer is not modelled.
\<close>

type_synonym ShelfType = string

definition HotShelf_type :: ShelfType where
  "HotShelf_type = ''hot''"

definition ColdShelf_type :: ShelfType where
  "ColdShelf_type = ''cold''"

definition FrozenShelf_type :: ShelfType where
  "FrozenShelf_type = ''frozen''"

definition OverflowShelf_type :: ShelfType where
  "OverflowShelf_type = ''overflow''"

record ShelfStats =
  OrdersAdded :: int
  OrdersRemoved :: int
  OrdersWasted :: int
  OrdersDelivered :: int
  PeakUsage :: int

record Shelf =
  Type :: ShelfType
  Capacity :: int
  stats :: ShelfStats
  Orders :: "(string, ref) fmap"

definition NewShelf :: "ShelfType \<Rightarrow> int \<Rightarrow> Shelf" where
  "NewShelf shelfType capacity =
     \<lparr> Type = shelfType, Capacity = capacity,
       stats = \<lparr> OrdersAdded = 0, OrdersRemoved = 0, OrdersWasted = 0, OrdersDelivered = 0,
                 PeakUsage = 0 \<rparr>,
       Orders = fmempty \<rparr>"

text \<open>Go's \<^verbatim>\<open>len\<close> of a map: the number of its keys.\<close>

definition len :: "(string, ref) fmap \<Rightarrow> int" where
  "len m = int (fcard (fmdom m))"

definition Size :: "Shelf \<Rightarrow> int" where
  "Size s = len (Orders s)"

definition IsFull :: "Shelf \<Rightarrow> bool" where
  "IsFull s = (len (Orders s) \<ge> Capacity s)"

definition GetOrder :: "Shelf \<Rightarrow> string \<Rightarrow> ref option" where
  "GetOrder s orderID = fmlookup (Orders s) orderID"

definition MarkOrderDelivered :: "Shelf \<Rightarrow> string \<Rightarrow> World \<Rightarrow> bool \<times> Shelf \<times> World" where
  "MarkOrderDelivered s orderID w =
     (case fmlookup (Orders s) orderID of
        None \<Rightarrow> (False, s, w)
      | Some r \<Rightarrow>
          (let (now, w1) = Now w;
               w2 = modify r (\<lambda>o'. o'\<lparr>DeliveredAt := now\<rparr>) w1;
               st = stats s
           in (True,
               s\<lparr>Orders := fmdrop orderID (Orders s),
                 stats := st\<lparr>OrdersDelivered := OrdersDelivered st + 1,
                            OrdersRemoved := OrdersRemoved st + 1\<rparr>\<rparr>,
               w2)))"

text \<open>
  One iteration of the loop of \<^verbatim>\<open>Shelf.RemoveExpiredOrders\<close>, at the key \<open>k\<close>. The loop ranges
  over the map; Go visits every entry once, in an order it does not fix, and here the keys
  are visited in their sorted order.
\<close>

fun sweepStep :: "Time \<Rightarrow> string \<Rightarrow> int \<times> Shelf \<times> World \<Rightarrow> int \<times> Shelf \<times> World" where
  "sweepStep now k (expiredCount, s, w) =
     (case fmlookup (Orders s) k of
        None \<Rightarrow> (expiredCount, s, w)
      | Some r \<Rightarrow>
          if IsExpired (heap w r) now then
            (expiredCount + 1,
             s\<lparr>Orders := fmdrop k (Orders s),
               stats := (stats s)\<lparr>OrdersWasted := OrdersWasted (stats s) + 1\<rparr>\<rparr>,
             modify r (\<lambda>o'. o'\<lparr>WastedAt := now\<rparr>) w)
          else (expiredCount, s, w))"

definition Shelf_RemoveExpiredOrders :: "Shelf \<Rightarrow> World \<Rightarrow> int \<times> Shelf \<times> World" where
  "Shelf_RemoveExpiredOrders s w =
     (let (now, w1) = Now w
      in fold (sweepStep now) (sorted_list_of_fset (fmdom (Orders s))) (0, s, w1))"

definition RemoveOrder :: "Shelf \<Rightarrow> string \<Rightarrow> ref option \<times> Shelf" where
  "RemoveOrder s orderID =
     (case fmlookup (Orders s) orderID of
        None \<Rightarrow> (None, s)
      | Some r \<Rightarrow>
          (Some r,
           s\<lparr>Orders := fmdrop orderID (Orders s),
             stats := (stats s)\<lparr>OrdersRemoved := OrdersRemoved (stats s) + 1\<rparr>\<rparr>))"

definition AddOrder :: "Shelf \<Rightarrow> ref \<Rightarrow> World \<Rightarrow> bool \<times> Shelf \<times> World" where
  "AddOrder s r w =
     (if len (Orders s) \<ge> Capacity s then (False, s, w)
      else
        (let w1 = (if IsZero (PlacedOnShelfAt (heap w r))
                   then (let (now, w') = Now w
                         in modify r (\<lambda>o'. o'\<lparr>PlacedOnShelfAt := now\<rparr>) w')
                   else w);
             w2 = modify r (\<lambda>o'. o'\<lparr>CurrentShelfType := Type s\<rparr>) w1;
             w3 = (if Type s = OverflowShelf_type \<and> IsZero (PlacedOnOverflow (heap w2 r))
                   then (let (now, w') = Now w2
                         in modify r (\<lambda>o'. o'\<lparr>PlacedOnOverflow := now\<rparr>) w')
                   else w2);
             orders = fmupd (ID (heap w3 r)) r (Orders s);
             st = (stats s)\<lparr>OrdersAdded := OrdersAdded (stats s) + 1\<rparr>;
             st' = (if len orders > PeakUsage st then st\<lparr>PeakUsage := len orders\<rparr> else st)
         in (True, s\<lparr>Orders := orders, stats := st'\<rparr>, w3)))"

section \<open>The shelf manager (internal/shelves/manager.go)\<close>

record ShelfManager =
  HotShelf :: Shelf
  ColdShelf :: Shelf
  FrozenShelf :: Shelf
  OverflowShelf :: Shelf
  TotalOrdersReceived :: int
  TotalOrdersDelivered :: int
  TotalOrdersExpired :: int
  TotalOrdersWasted :: int

definition NewShelfManager :: "int \<Rightarrow> int \<Rightarrow> int \<Rightarrow> int \<Rightarrow> ShelfManager" where
  "NewShelfManager hotCapacity coldCapacity frozenCapacity overflowCapacity =
     \<lparr> HotShelf = NewShelf HotShelf_type hotCapacity,
       ColdShelf = NewShelf ColdShelf_type coldCapacity,
       FrozenShelf = NewShelf FrozenShelf_type frozenCapacity,
       OverflowShelf = NewShelf OverflowShelf_type overflowCapacity,
       TotalOrdersReceived = 0, TotalOrdersDelivered = 0, TotalOrdersExpired = 0,
       TotalOrdersWasted = 0 \<rparr>"

text \<open>
  \<^verbatim>\<open>GetShelfForTemperature\<close> returns a pointer to one of the manager's primary shelves, or
  nil. The pointer is modelled by the name of the field it points to.
\<close>

datatype PrimaryShelf = AtHotShelf | AtColdShelf | AtFrozenShelf

definition GetShelfForTemperature :: "Temperature \<Rightarrow> PrimaryShelf option" where
  "GetShelfForTemperature temp =
     (if temp = Hot then Some AtHotShelf
      else if temp = Cold then Some AtColdShelf
      else if temp = Frozen then Some AtFrozenShelf
      else None)"

fun shelfAt :: "ShelfManager \<Rightarrow> PrimaryShelf \<Rightarrow> Shelf" where
  "shelfAt sm AtHotShelf = HotShelf sm"
| "shelfAt sm AtColdShelf = ColdShelf sm"
| "shelfAt sm AtFrozenShelf = FrozenShelf sm"

fun setShelfAt :: "PrimaryShelf \<Rightarrow> Shelf \<Rightarrow> ShelfManager \<Rightarrow> ShelfManager" where
  "setShelfAt AtHotShelf s sm = sm\<lparr>HotShelf := s\<rparr>"
| "setShelfAt AtColdShelf s sm = sm\<lparr>ColdShelf := s\<rparr>"
| "setShelfAt AtFrozenShelf s sm = sm\<lparr>FrozenShelf := s\<rparr>"

definition PlaceOrder :: "ShelfManager \<Rightarrow> ref \<Rightarrow> World \<Rightarrow> bool \<times> ShelfManager \<times> World" where
  "PlaceOrder sm r w =
     (let sm1 = sm\<lparr>TotalOrdersReceived := TotalOrdersReceived sm + 1\<rparr>
      in case GetShelfForTemperature (Temp (heap w r)) of
           None \<Rightarrow> (False, sm1\<lparr>TotalOrdersWasted := TotalOrdersWasted sm1 + 1\<rparr>, w)
         | Some primaryShelf \<Rightarrow>
             (let (added, p, w1) = AddOrder (shelfAt sm1 primaryShelf) r w
              in if added then (True, setShelfAt primaryShelf p sm1, w1)
                 else
                   (let (addedOverflow, ov, w2) = AddOrder (OverflowShelf sm1) r w1
                    in if addedOverflow then
                         (let (now, w3) = Now w2
                          in (True, sm1\<lparr>OverflowShelf := ov\<rparr>,
                              modify r (\<lambda>o'. o'\<lparr>PlacedOnOverflow := now\<rparr>) w3))
                       else
                         (let (now, w3) = Now w2
                          in (False, sm1\<lparr>TotalOrdersWasted := TotalOrdersWasted sm1 + 1\<rparr>,
                              modify r (\<lambda>o'. o'\<lparr>WastedAt := now\<rparr>) w3)))))"

definition deliverFromShelf :: "Shelf \<Rightarrow> string \<Rightarrow> World \<Rightarrow> bool \<times> Shelf \<times> World" where
  "deliverFromShelf s orderID w =
     (case GetOrder s orderID of
        Some r \<Rightarrow> MarkOrderDelivered s orderID w
      | None \<Rightarrow> (False, s, w))"

definition DeliverOrder :: "ShelfManager \<Rightarrow> string \<Rightarrow> World \<Rightarrow> bool \<times> ShelfManager \<times> World" where
  "DeliverOrder sm orderID w =
     (let (d1, s1, w1) = deliverFromShelf (HotShelf sm) orderID w;
          sm1 = sm\<lparr>HotShelf := s1\<rparr>
      in if d1 then (True, sm1\<lparr>TotalOrdersDelivered := TotalOrdersDelivered sm1 + 1\<rparr>, w1)
         else
     (let (d2, s2, w2) = deliverFromShelf (ColdShelf sm1) orderID w1;
          sm2 = sm1\<lparr>ColdShelf := s2\<rparr>
      in if d2 then (True, sm2\<lparr>TotalOrdersDelivered := TotalOrdersDelivered sm2 + 1\<rparr>, w2)
         else
     (let (d3, s3, w3) = deliverFromShelf (FrozenShelf sm2) orderID w2;
          sm3 = sm2\<lparr>FrozenShelf := s3\<rparr>
      in if d3 then (True, sm3\<lparr>TotalOrdersDelivered := TotalOrdersDelivered sm3 + 1\<rparr>, w3)
         else
     (let (d4, s4, w4) = deliverFromShelf (OverflowShelf sm3) orderID w3;
          sm4 = sm3\<lparr>OverflowShelf := s4\<rparr>
      in if d4 then (True, sm4\<lparr>TotalOrdersDelivered := TotalOrdersDelivered sm4 + 1\<rparr>, w4)
         else (False, sm4, w4)))))"

definition ShelfManager_RemoveExpiredOrders :: "ShelfManager \<Rightarrow> World \<Rightarrow> int \<times> ShelfManager \<times> World" where
  "ShelfManager_RemoveExpiredOrders sm w =
     (let (n1, s1, w1) = Shelf_RemoveExpiredOrders (HotShelf sm) w;
          (n2, s2, w2) = Shelf_RemoveExpiredOrders (ColdShelf sm) w1;
          (n3, s3, w3) = Shelf_RemoveExpiredOrders (FrozenShelf sm) w2;
          (n4, s4, w4) = Shelf_RemoveExpiredOrders (OverflowShelf sm) w3;
          expiredCount = 0 + n1 + n2 + n3 + n4
      in (expiredCount,
          sm\<lparr>HotShelf := s1, ColdShelf := s2, FrozenShelf := s3, OverflowShelf := s4,
             TotalOrdersExpired := TotalOrdersExpired sm + expiredCount\<rparr>,
          w4))"

section \<open>Specification-side definitions\<close>

text \<open>
  What \<^verbatim>\<open>MarkOrderDelivered\<close> leaves behind when it finds the order: the shelf without the
  identifier and with its two counters raised, and the store with the order's delivered
  timestamp set to the clock reading the call takes.
\<close>

definition delivered :: "Shelf \<Rightarrow> string \<Rightarrow> Shelf" where
  "delivered s orderID =
     s\<lparr>Orders := fmdrop orderID (Orders s),
       stats := (stats s)\<lparr>OrdersDelivered := OrdersDelivered (stats s) + 1,
                          OrdersRemoved := OrdersRemoved (stats s) + 1\<rparr>\<rparr>"

definition stampDelivered :: "ref \<Rightarrow> World \<Rightarrow> World" where
  "stampDelivered r w =
     w\<lparr>heap := (heap w)(r := (heap w r)\<lparr>DeliveredAt := clock w (ticks w)\<rparr>),
       ticks := Suc (ticks w)\<rparr>"

text \<open>
  The outcome of an expiry sweep, said without the loop: \<open>expiredOn m h now k\<close> holds when the
  identifier \<open>k\<close> is resident in \<open>m\<close> and its order is expired at \<open>now\<close>; \<open>swept\<close> is the shelf
  that keeps exactly the other residents and adds the number of removed ones to its wasted
  statistic; \<open>sweptRefs\<close> are the orders removed and \<open>stampWasted\<close> sets their wasted
  timestamp, leaving every other order of the store as it is.
\<close>

definition expiredOn :: "(string, ref) fmap \<Rightarrow> (ref \<Rightarrow> Order) \<Rightarrow> Time \<Rightarrow> string \<Rightarrow> bool" where
  "expiredOn m h now k = (case fmlookup m k of None \<Rightarrow> False | Some r \<Rightarrow> IsExpired (h r) now)"

definition sweptRefs :: "(string, ref) fmap \<Rightarrow> (ref \<Rightarrow> Order) \<Rightarrow> Time \<Rightarrow> ref set" where
  "sweptRefs m h now = fmran' (fmfilter (expiredOn m h now) m)"

definition swept :: "Shelf \<Rightarrow> (ref \<Rightarrow> Order) \<Rightarrow> Time \<Rightarrow> Shelf" where
  "swept s h now =
     (let kept = fmfilter (\<lambda>k. \<not> expiredOn (Orders s) h now k) (Orders s)
      in s\<lparr>Orders := kept,
           stats := (stats s)\<lparr>OrdersWasted := OrdersWasted (stats s) + (len (Orders s) - len kept)\<rparr>\<rparr>)"

definition stampWasted :: "ref set \<Rightarrow> Time \<Rightarrow> (ref \<Rightarrow> Order) \<Rightarrow> ref \<Rightarrow> Order" where
  "stampWasted R now h = (\<lambda>r. if r \<in> R then (h r)\<lparr>WastedAt := now\<rparr> else h r)"

section \<open>Example orders and kitchens\<close>

definition Second :: Duration where
  "Second = 1000000000"




text \<open>
  A store of five fresh orders: hot ones at the references 0, 1, 2 and 4, of which the second
  lasts 20 seconds only, and one of an unknown temperature class at 3; every other reference
  holds a copy of the first. The clock reads second \<open>10 + n\<close> at its \<open>n\<close>-th reading.
\<close>

definition kitchen :: World where
  "kitchen =
     \<lparr> heap = (\<lambda>_. NewOrder ''1'' ''Burger'' Hot 300 (1 / 2) Second)
                (1 := NewOrder ''2'' ''Fries'' Hot 20 1 Second,
                 2 := NewOrder ''3'' ''Pasta'' Hot 300 (1 / 2) Second,
                 3 := NewOrder ''4'' ''Mystery'' ''lukewarm'' 300 (1 / 2) Second,
                 4 := NewOrder ''5'' ''Soup'' Hot 300 (1 / 2) Second),
       clock = (\<lambda>n. (10 + int n) * Second),
       ticks = 0 \<rparr>"

section \<open>Sequences of calls\<close>

text \<open>Consecutive \<^verbatim>\<open>AddOrder\<close> calls on one shelf, with the result of each.\<close>

fun AddOrders :: "ref list \<Rightarrow> Shelf \<Rightarrow> World \<Rightarrow> bool list \<times> Shelf \<times> World" where
  "AddOrders [] s w = ([], s, w)"
| "AddOrders (r # rs) s w =
     (let (added, s', w') = AddOrder s r w;
          (rest, s'', w'') = AddOrders rs s' w'
      in (added # rest, s'', w''))"

text \<open>
  A caller of one shelf: any sequence of its four mutating operations. \<open>isRemoval\<close> tells
  whether a call is a \<^verbatim>\<open>RemoveOrder\<close> or a \<^verbatim>\<open>MarkOrderDelivered\<close> that succeeds in the state
  it is made in, and \<open>successfulRemovals\<close> counts these calls along a sequence.
\<close>

datatype ShelfCall =
  CallAddOrder ref
| CallRemoveOrder string
| CallMarkOrderDelivered string
| CallRemoveExpiredOrders

fun shelfCall :: "ShelfCall \<Rightarrow> Shelf \<times> World \<Rightarrow> Shelf \<times> World" where
  "shelfCall (CallAddOrder r) (s, w) = snd (AddOrder s r w)"
| "shelfCall (CallRemoveOrder orderID) (s, w) = (snd (RemoveOrder s orderID), w)"
| "shelfCall (CallMarkOrderDelivered orderID) (s, w) = snd (MarkOrderDelivered s orderID w)"
| "shelfCall CallRemoveExpiredOrders (s, w) = snd (Shelf_RemoveExpiredOrders s w)"

fun isRemoval :: "ShelfCall \<Rightarrow> Shelf \<times> World \<Rightarrow> bool" where
  "isRemoval (CallAddOrder r) (s, w) = False"
| "isRemoval (CallRemoveOrder orderID) (s, w) = (fst (RemoveOrder s orderID) \<noteq> None)"
| "isRemoval (CallMarkOrderDelivered orderID) (s, w) = fst (MarkOrderDelivered s orderID w)"
| "isRemoval CallRemoveExpiredOrders (s, w) = False"

fun shelfCalls :: "ShelfCall list \<Rightarrow> Shelf \<times> World \<Rightarrow> Shelf \<times> World" where
  "shelfCalls [] st = st"
| "shelfCalls (c # cs) st = shelfCalls cs (shelfCall c st)"

fun successfulRemovals :: "ShelfCall list \<Rightarrow> Shelf \<times> World \<Rightarrow> int" where
  "successfulRemovals [] st = 0"
| "successfulRemovals (c # cs) st =
     (if isRemoval c st then 1 else 0) + successfulRemovals cs (shelfCall c st)"

text \<open>A caller of the manager: any sequence of its three mutating operations.\<close>

datatype ManagerCall =
  CallPlaceOrder ref
| CallDeliverOrder string
| CallSweep

fun managerCall :: "ManagerCall \<Rightarrow> ShelfManager \<times> World \<Rightarrow> ShelfManager \<times> World" where
  "managerCall (CallPlaceOrder r) (sm, w) = snd (PlaceOrder sm r w)"
| "managerCall (CallDeliverOrder orderID) (sm, w) = snd (DeliverOrder sm orderID w)"
| "managerCall CallSweep (sm, w) = snd (ShelfManager_RemoveExpiredOrders sm w)"

fun managerCalls :: "ManagerCall list \<Rightarrow> ShelfManager \<times> World \<Rightarrow> ShelfManager \<times> World" where
  "managerCalls [] st = st"
| "managerCalls (c # cs) st = managerCalls cs (managerCall c st)"

text \<open>The reconciliation equation of the manager's counters.\<close>

definition reconciled :: "ShelfManager \<Rightarrow> bool" where
  "reconciled sm =
     (TotalOrdersReceived sm =
        TotalOrdersDelivered sm + TotalOrdersWasted sm + TotalOrdersExpired sm
        + (Size (HotShelf sm) + Size (ColdShelf sm) + Size (FrozenShelf sm)
           + Size (OverflowShelf sm)))"

text \<open>An identifier is resident when one of the four shelves holds it.\<close>

definition resident :: "ShelfManager \<Rightarrow> string \<Rightarrow> bool" where
  "resident sm orderID =
     (fmlookup (Orders (HotShelf sm)) orderID \<noteq> None
      \<or> fmlookup (Orders (ColdShelf sm)) orderID \<noteq> None
      \<or> fmlookup (Orders (FrozenShelf sm)) orderID \<noteq> None
      \<or> fmlookup (Orders (OverflowShelf sm)) orderID \<noteq> None)"

text \<open>
  A sequence of calls places no resident identifier when every \<^verbatim>\<open>PlaceOrder\<close> in it is given
  an order whose identifier is on no shelf at the moment of the call.
\<close>

fun placesNoResident :: "ManagerCall list \<Rightarrow> ShelfManager \<times> World \<Rightarrow> bool" where
  "placesNoResident [] st = True"
| "placesNoResident (CallPlaceOrder r # cs) (sm, w) =
     (\<not> resident sm (ID (heap w r))
      \<and> placesNoResident cs (managerCall (CallPlaceOrder r) (sm, w)))"
| "placesNoResident (c # cs) st = placesNoResident cs (managerCall c st)"

text \<open>
  The kitchen some time after the orders 0, 1 and 2 were placed, in this order, on a manager
  with one slot per primary shelf and two overflow slots: the first order is on the hot shelf
  since second 10, the other two went to overflow, and the clock has been read 30 times.
\<close>

definition lunchShelves :: ShelfManager where
  "lunchShelves =
     (NewShelfManager 1 1 1 2)
       \<lparr>HotShelf :=
          (NewShelf HotShelf_type 1)
            \<lparr>Orders := fmupd ''1'' 0 fmempty,
             stats := \<lparr>OrdersAdded = 1, OrdersRemoved = 0, OrdersWasted = 0,
                        OrdersDelivered = 0, PeakUsage = 1\<rparr>\<rparr>,
        OverflowShelf :=
          (NewShelf OverflowShelf_type 2)
            \<lparr>Orders := fmupd ''3'' 2 (fmupd ''2'' 1 fmempty),
             stats := \<lparr>OrdersAdded = 2, OrdersRemoved = 0, OrdersWasted = 0,
                        OrdersDelivered = 0, PeakUsage = 2\<rparr>\<rparr>,
        TotalOrdersReceived := 3\<rparr>"

definition lunchWorld :: World where
  "lunchWorld =
     kitchen
       \<lparr>heap := (heap kitchen)
          (0 := (heap kitchen 0)\<lparr>PlacedOnShelfAt := 10 * Second, CurrentShelfType := ''hot''\<rparr>,
           1 := (heap kitchen 1)\<lparr>PlacedOnShelfAt := 11 * Second,
                                 PlacedOnOverflow := 13 * Second,
                                 CurrentShelfType := ''overflow''\<rparr>,
           2 := (heap kitchen 2)\<lparr>PlacedOnShelfAt := 14 * Second,
                                 PlacedOnOverflow := 16 * Second,
                                 CurrentShelfType := ''overflow''\<rparr>),
        ticks := 30\<rparr>"

text \<open>A short service: two placements, an order of an unknown class, a delivery, a sweep.\<close>

definition rush :: "ManagerCall list" where
  "rush = [CallPlaceOrder 0, CallPlaceOrder 1, CallPlaceOrder 3, CallDeliverOrder ''1'',
           CallSweep]"

text \<open>Lunch time after the order 3 (at the reference 2) was delivered from overflow.\<close>

definition afterDelivery :: "ShelfManager \<times> World" where
  "afterDelivery = snd (DeliverOrder lunchShelves ''3'' lunchWorld)"

text \<open>
  A shift on one shelf: two orders added, a sweep, a delivery, and a removal and a delivery
  that find nothing; and a kitchen whose clock advances 30 seconds at every reading.
\<close>

definition shift :: "ShelfCall list" where
  "shift = [CallAddOrder 0, CallAddOrder 1, CallRemoveExpiredOrders,
            CallMarkOrderDelivered ''1'', CallRemoveOrder ''2'', CallMarkOrderDelivered ''1'']"

definition slowKitchen :: World where
  "slowKitchen = kitchen\<lparr>clock := (\<lambda>n. (10 + 30 * int n) * Second)\<rparr>"

section \<open>Auxiliary facts\<close>

lemma heap_modify [simp]: "heap (modify r f w) = (heap w)(r := f (heap w r))"
  by (simp add: modify_def)

lemma clock_modify [simp]: "clock (modify r f w) = clock w"
  by (simp add: modify_def)

lemma ticks_modify [simp]: "ticks (modify r f w) = ticks w"
  by (simp add: modify_def)

lemma Now_eq [simp]: "Now w = (clock w (ticks w), w\<lparr>ticks := Suc (ticks w)\<rparr>)"
  by (simp add: Now_def)







section \<open>The decay model\<close>









section \<open>Delivery\<close>

lemma deliverFromShelf_None:
  "fmlookup (Orders s) orderID = None \<Longrightarrow> deliverFromShelf s orderID w = (False, s, w)"
  by (simp add: deliverFromShelf_def GetOrder_def)

lemma deliverFromShelf_Some:
  "fmlookup (Orders s) orderID = Some r \<Longrightarrow>
   deliverFromShelf s orderID w = (True, delivered s orderID, stampDelivered r w)"
  by (simp add: deliverFromShelf_def GetOrder_def MarkOrderDelivered_def delivered_def
      stampDelivered_def modify_def Let_def)

text \<open>
  C7. \<^verbatim>\<open>DeliverOrder\<close> asks the hot, the cold, the frozen and the overflow shelf, in this
  order. When none of them holds the identifier it returns false and the manager, the store
  and the clock are what they were. Otherwise the first shelf that holds it, and only this
  shelf, loses the identifier (and counts one delivery and one removal), the order's delivered
  timestamp becomes the clock reading taken, no other order changes, and the total of
  delivered orders grows by 1.
\<close>

theorem DeliverOrder_first_shelf:
  "(fmlookup (Orders (HotShelf sm)) orderID = None \<and>
    fmlookup (Orders (ColdShelf sm)) orderID = None \<and>
    fmlookup (Orders (FrozenShelf sm)) orderID = None \<and>
    fmlookup (Orders (OverflowShelf sm)) orderID = None \<longrightarrow>
      DeliverOrder sm orderID w = (False, sm, w))
   \<and> (fmlookup (Orders (HotShelf sm)) orderID = Some r \<longrightarrow>
      DeliverOrder sm orderID w =
        (True,
         sm\<lparr>HotShelf := delivered (HotShelf sm) orderID,
            TotalOrdersDelivered := TotalOrdersDelivered sm + 1\<rparr>,
         stampDelivered r w))
   \<and> (fmlookup (Orders (HotShelf sm)) orderID = None \<and>
      fmlookup (Orders (ColdShelf sm)) orderID = Some r \<longrightarrow>
      DeliverOrder sm orderID w =
        (True,
         sm\<lparr>ColdShelf := delivered (ColdShelf sm) orderID,
            TotalOrdersDelivered := TotalOrdersDelivered sm + 1\<rparr>,
         stampDelivered r w))
   \<and> (fmlookup (Orders (HotShelf sm)) orderID = None \<and>
      fmlookup (Orders (ColdShelf sm)) orderID = None \<and>
      fmlookup (Orders (FrozenShelf sm)) orderID = Some r \<longrightarrow>
      DeliverOrder sm orderID w =
        (True,
         sm\<lparr>FrozenShelf := delivered (FrozenShelf sm) orderID,
            TotalOrdersDelivered := TotalOrdersDelivered sm + 1\<rparr>,
         stampDelivered r w))
   \<and> (fmlookup (Orders (HotShelf sm)) orderID = None \<and>
      fmlookup (Orders (ColdShelf sm)) orderID = None \<and>
      fmlookup (Orders (FrozenShelf sm)) orderID = None \<and>
      fmlookup (Orders (OverflowShelf sm)) orderID = Some r \<longrightarrow>
      DeliverOrder sm orderID w =
        (True,
         sm\<lparr>OverflowShelf := delivered (OverflowShelf sm) orderID,
            TotalOrdersDelivered := TotalOrdersDelivered sm + 1\<rparr>,
         stampDelivered r w))"
  by (simp add: DeliverOrder_def deliverFromShelf_None deliverFromShelf_Some)

text \<open>
  At lunch time the identifier 2 is on overflow and on no primary shelf, and the identifier 9
  is nowhere.
\<close>

theorem DeliverOrder_first_shelf_witness:
  "DeliverOrder lunchShelves ''9'' lunchWorld = (False, lunchShelves, lunchWorld)
   \<and> DeliverOrder lunchShelves ''2'' lunchWorld =
       (True,
        lunchShelves\<lparr>OverflowShelf := delivered (OverflowShelf lunchShelves) ''2'',
                     TotalOrdersDelivered := TotalOrdersDelivered lunchShelves + 1\<rparr>,
        stampDelivered 1 lunchWorld)"
proof -
  have absent:
    "fmlookup (Orders (HotShelf lunchShelves)) ''9'' = None \<and>
     fmlookup (Orders (ColdShelf lunchShelves)) ''9'' = None \<and>
     fmlookup (Orders (FrozenShelf lunchShelves)) ''9'' = None \<and>
     fmlookup (Orders (OverflowShelf lunchShelves)) ''9'' = None"
    by code_simp
  have present:
    "fmlookup (Orders (HotShelf lunchShelves)) ''2'' = None \<and>
     fmlookup (Orders (ColdShelf lunchShelves)) ''2'' = None \<and>
     fmlookup (Orders (FrozenShelf lunchShelves)) ''2'' = None \<and>
     fmlookup (Orders (OverflowShelf lunchShelves)) ''2'' = Some 1"
    by code_simp
  from DeliverOrder_first_shelf [of lunchShelves "''9''" lunchWorld 1] absent
  have "DeliverOrder lunchShelves ''9'' lunchWorld = (False, lunchShelves, lunchWorld)"
    by blast
  moreover from DeliverOrder_first_shelf [of lunchShelves "''2''" lunchWorld 1] present
  have "DeliverOrder lunchShelves ''2'' lunchWorld =
       (True,
        lunchShelves\<lparr>OverflowShelf := delivered (OverflowShelf lunchShelves) ''2'',
                     TotalOrdersDelivered := TotalOrdersDelivered lunchShelves + 1\<rparr>,
        stampDelivered 1 lunchWorld)"
    by blast
  ultimately show ?thesis by simp
qed

section \<open>The expiry sweep\<close>

lemma IsExpired_WastedAt [simp]: "IsExpired (o'\<lparr>WastedAt := t\<rparr>) now = IsExpired o' now"
  by (simp add: IsExpired_def CalculateValue_def decayAmount_def)

lemma expiredOn_after_step:
  "expiredOn (fmdrop k m) (h(r := (h r)\<lparr>WastedAt := t\<rparr>)) now k' = (k' \<noteq> k \<and> expiredOn m h now k')"
  by (auto simp: expiredOn_def split: option.splits)

lemma sweepStep_keep:
  "\<not> expiredOn (Orders s) (heap w) now k \<Longrightarrow> sweepStep now k (c, s, w) = (c, s, w)"
  by (auto simp: expiredOn_def split: option.splits)

lemma sweepStep_drop:
  "expiredOn (Orders s) (heap w) now k \<Longrightarrow>
   \<exists>r. fmlookup (Orders s) k = Some r \<and>
       sweepStep now k (c, s, w) =
         (c + 1,
          s\<lparr>Orders := fmdrop k (Orders s),
            stats := (stats s)\<lparr>OrdersWasted := OrdersWasted (stats s) + 1\<rparr>\<rparr>,
          w\<lparr>heap := (heap w)(r := (heap w r)\<lparr>WastedAt := now\<rparr>)\<rparr>)"
  by (auto simp: expiredOn_def modify_def split: option.splits)

lemma stampWasted_empty [simp]: "stampWasted {} now h = h"
  by (simp add: stampWasted_def)

lemma fmran'_fmempty [simp]: "fmran' fmempty = {}"
  by (auto simp: fmlookup_ran'_iff)

lemma distinct_sorted_list_of_fset [simp]: "distinct (sorted_list_of_fset S)"
  by (simp add: sorted_list_of_fset.rep_eq)

lemma fold_sweepStep:
  "distinct ks \<Longrightarrow>
   fold (sweepStep now) ks (c, s, w) =
     (c + int (length (filter (expiredOn (Orders s) (heap w) now) ks)),
      s\<lparr>Orders := fmfilter (\<lambda>k. \<not> (k \<in> set ks \<and> expiredOn (Orders s) (heap w) now k)) (Orders s),
        stats := (stats s)\<lparr>OrdersWasted := OrdersWasted (stats s)
                   + int (length (filter (expiredOn (Orders s) (heap w) now) ks))\<rparr>\<rparr>,
      w\<lparr>heap := stampWasted
          (fmran' (fmfilter (\<lambda>k. k \<in> set ks \<and> expiredOn (Orders s) (heap w) now k) (Orders s)))
          now (heap w)\<rparr>)"
proof (induction ks arbitrary: c s w)
  case Nil
  show ?case by simp
next
  case (Cons k ks)
  then have k: "k \<notin> set ks" and d: "distinct ks" by simp_all
  let ?E = "expiredOn (Orders s) (heap w) now"
  show ?case
  proof (cases "?E k")
    case False
    have cnt: "filter ?E (k # ks) = filter ?E ks"
      using False by simp
    have ords: "fmfilter (\<lambda>k'. \<not> (k' \<in> set (k # ks) \<and> ?E k')) (Orders s)
        = fmfilter (\<lambda>k'. \<not> (k' \<in> set ks \<and> ?E k')) (Orders s)"
      using False by (intro fmap_ext) auto
    have refs: "fmfilter (\<lambda>k'. k' \<in> set (k # ks) \<and> ?E k') (Orders s)
        = fmfilter (\<lambda>k'. k' \<in> set ks \<and> ?E k') (Orders s)"
      using False by (intro fmap_ext) auto
    have "fold (sweepStep now) (k # ks) (c, s, w) = fold (sweepStep now) ks (c, s, w)"
      using False by (simp add: sweepStep_keep del: sweepStep.simps)
    then show ?thesis
      unfolding Cons.IH [OF d] cnt ords refs .
  next
    case True
    from sweepStep_drop [OF True] obtain r where
      r: "fmlookup (Orders s) k = Some r" and
      st: "sweepStep now k (c, s, w) =
         (c + 1,
          s\<lparr>Orders := fmdrop k (Orders s),
            stats := (stats s)\<lparr>OrdersWasted := OrdersWasted (stats s) + 1\<rparr>\<rparr>,
          w\<lparr>heap := (heap w)(r := (heap w r)\<lparr>WastedAt := now\<rparr>)\<rparr>)"
      by blast
    let ?s1 = "s\<lparr>Orders := fmdrop k (Orders s),
            stats := (stats s)\<lparr>OrdersWasted := OrdersWasted (stats s) + 1\<rparr>\<rparr>"
    let ?w1 = "w\<lparr>heap := (heap w)(r := (heap w r)\<lparr>WastedAt := now\<rparr>)\<rparr>"
    let ?E1 = "expiredOn (Orders ?s1) (heap ?w1) now"
    have E1: "?E1 = (\<lambda>k'. k' \<noteq> k \<and> ?E k')"
      by (rule ext) (simp add: expiredOn_after_step)
    have cnt: "int (length (filter ?E1 ks)) + 1 = int (length (filter ?E (k # ks)))"
    proof -
      have "filter ?E1 ks = filter ?E ks"
        unfolding E1 using k by (intro filter_cong) auto
      then show ?thesis using True by simp
    qed
    have ords: "fmfilter (\<lambda>k'. \<not> (k' \<in> set ks \<and> ?E1 k')) (Orders ?s1)
        = fmfilter (\<lambda>k'. \<not> (k' \<in> set (k # ks) \<and> ?E k')) (Orders s)"
      unfolding E1 using True by (intro fmap_ext) auto
    have refs: "fmran' (fmfilter (\<lambda>k'. k' \<in> set (k # ks) \<and> ?E k') (Orders s))
        = insert r (fmran' (fmfilter (\<lambda>k'. k' \<in> set ks \<and> ?E1 k') (Orders ?s1)))"
      unfolding E1 using True r k by (auto simp: fmlookup_ran'_iff split: if_splits)
    have hp: "stampWasted (fmran' (fmfilter (\<lambda>k'. k' \<in> set ks \<and> ?E1 k') (Orders ?s1))) now (heap ?w1)
        = stampWasted (fmran' (fmfilter (\<lambda>k'. k' \<in> set (k # ks) \<and> ?E k') (Orders s))) now (heap w)"
      unfolding refs by (auto simp: stampWasted_def)
    have "fold (sweepStep now) (k # ks) (c, s, w) = fold (sweepStep now) ks (c + 1, ?s1, ?w1)"
      by (simp add: st del: sweepStep.simps)
    also have "\<dots> =
       (c + 1 + int (length (filter ?E1 ks)),
        ?s1\<lparr>Orders := fmfilter (\<lambda>k'. \<not> (k' \<in> set ks \<and> ?E1 k')) (Orders ?s1),
          stats := (stats ?s1)\<lparr>OrdersWasted := OrdersWasted (stats ?s1)
                   + int (length (filter ?E1 ks))\<rparr>\<rparr>,
        ?w1\<lparr>heap := stampWasted
          (fmran' (fmfilter (\<lambda>k'. k' \<in> set ks \<and> ?E1 k') (Orders ?s1))) now (heap ?w1)\<rparr>)"
      by (rule Cons.IH [OF d])
    also have "\<dots> =
       (c + int (length (filter ?E (k # ks))),
        s\<lparr>Orders := fmfilter (\<lambda>k'. \<not> (k' \<in> set (k # ks) \<and> ?E k')) (Orders s),
          stats := (stats s)\<lparr>OrdersWasted := OrdersWasted (stats s)
                   + int (length (filter ?E (k # ks)))\<rparr>\<rparr>,
        w\<lparr>heap := stampWasted
          (fmran' (fmfilter (\<lambda>k'. k' \<in> set (k # ks) \<and> ?E k') (Orders s))) now (heap w)\<rparr>)"
      unfolding ords hp cnt [symmetric] by simp
    finally show ?thesis .
  qed
qed

lemma expired_in_dom: "expiredOn m h now k \<Longrightarrow> k |\<in>| fmdom m"
  by (auto simp: expiredOn_def intro: fmdomI split: option.splits)

lemma len_filter_split:
  "len m - len (fmfilter (\<lambda>k. \<not> P k) m) = int (length (filter P (sorted_list_of_fset (fmdom m))))"
proof -
  have "ffilter P (fmdom m) |\<union>| ffilter (\<lambda>k. \<not> P k) (fmdom m) = fmdom m"
    by auto
  moreover have "ffilter P (fmdom m) |\<inter>| ffilter (\<lambda>k. \<not> P k) (fmdom m) = {||}"
    by auto
  ultimately have "fcard (fmdom m) = fcard (ffilter P (fmdom m)) + fcard (ffilter (\<lambda>k. \<not> P k) (fmdom m))"
    using fcard_funion_disjoint [of "ffilter P (fmdom m)" "ffilter (\<lambda>k. \<not> P k) (fmdom m)"]
    by simp
  moreover have "length (filter P (sorted_list_of_fset (fmdom m))) = fcard (ffilter P (fmdom m))"
  proof -
    have "{x. P x} \<inter> fset (fmdom m) = fset (ffilter P (fmdom m))"
      by auto
    then show ?thesis
      by (simp add: distinct_length_filter fcard.rep_eq)
  qed
  ultimately show ?thesis by (simp add: len_def)
qed

lemma Shelf_RemoveExpiredOrders_eq:
  "Shelf_RemoveExpiredOrders s w =
     (len (Orders s) - len (Orders (swept s (heap w) (clock w (ticks w)))),
      swept s (heap w) (clock w (ticks w)),
      w\<lparr>heap := stampWasted (sweptRefs (Orders s) (heap w) (clock w (ticks w)))
                 (clock w (ticks w)) (heap w),
        ticks := Suc (ticks w)\<rparr>)"
proof -
  let ?now = "clock w (ticks w)"
  let ?ks = "sorted_list_of_fset (fmdom (Orders s))"
  let ?E = "expiredOn (Orders s) (heap w) ?now"
  have a: "fmfilter (\<lambda>k. k \<in> set ?ks \<and> ?E k) (Orders s) = fmfilter ?E (Orders s)"
    by (intro fmap_ext) (auto dest: expired_in_dom)
  have b: "fmfilter (\<lambda>k. \<not> (k \<in> set ?ks \<and> ?E k)) (Orders s) = fmfilter (\<lambda>k. \<not> ?E k) (Orders s)"
    by (intro fmap_ext) (auto dest: expired_in_dom)
  have "Shelf_RemoveExpiredOrders s w = fold (sweepStep ?now) ?ks (0, s, w\<lparr>ticks := Suc (ticks w)\<rparr>)"
    by (simp add: Shelf_RemoveExpiredOrders_def del: sweepStep.simps)
  also have "\<dots> =
     (0 + int (length (filter ?E ?ks)),
      s\<lparr>Orders := fmfilter (\<lambda>k. \<not> (k \<in> set ?ks \<and> ?E k)) (Orders s),
        stats := (stats s)\<lparr>OrdersWasted := OrdersWasted (stats s) + int (length (filter ?E ?ks))\<rparr>\<rparr>,
      (w\<lparr>ticks := Suc (ticks w)\<rparr>)\<lparr>heap := stampWasted
          (fmran' (fmfilter (\<lambda>k. k \<in> set ?ks \<and> ?E k) (Orders s))) ?now (heap w)\<rparr>)"
    using fold_sweepStep [of ?ks ?now 0 s "w\<lparr>ticks := Suc (ticks w)\<rparr>"] by simp
  also have "\<dots> =
     (len (Orders s) - len (Orders (swept s (heap w) ?now)),
      swept s (heap w) ?now,
      w\<lparr>heap := stampWasted (sweptRefs (Orders s) (heap w) ?now) ?now (heap w),
        ticks := Suc (ticks w)\<rparr>)"
    unfolding a b by (simp add: swept_def sweptRefs_def Let_def len_filter_split)
  finally show ?thesis .
qed

lemma IsExpired_stampWasted [simp]: "IsExpired (stampWasted R t h r) now = IsExpired (h r) now"
  by (simp add: stampWasted_def)

lemma expiredOn_stampWasted [simp]: "expiredOn m (stampWasted R t h) now = expiredOn m h now"
  by (rule ext) (simp add: expiredOn_def split: option.splits)

lemma swept_stampWasted [simp]: "swept s (stampWasted R t h) now = swept s h now"
  by (simp add: swept_def)

lemma sweptRefs_stampWasted [simp]: "sweptRefs m (stampWasted R t h) now = sweptRefs m h now"
  by (simp add: sweptRefs_def)

text \<open>
  C6. One call of the manager's \<^verbatim>\<open>RemoveExpiredOrders\<close> sweeps the hot, the cold, the frozen and
  the overflow shelf, each at the clock reading its own sweep takes (\<open>t1\<close> to \<open>t4\<close>). Every
  shelf keeps exactly its residents that are not expired at its reading and counts the removed
  ones as wasted; the orders removed get their wasted timestamp set to that reading and no
  other order of the store changes; the result is the number of entries removed from the four
  shelves, and this number is added to the total of expired orders.
\<close>

theorem ShelfManager_RemoveExpiredOrders_sweeps:
  "ShelfManager_RemoveExpiredOrders sm w =
     (let h = heap w;
          t1 = clock w (ticks w);
          t2 = clock w (ticks w + 1);
          t3 = clock w (ticks w + 2);
          t4 = clock w (ticks w + 3);
          n = (Size (HotShelf sm) - Size (swept (HotShelf sm) h t1))
            + (Size (ColdShelf sm) - Size (swept (ColdShelf sm) h t2))
            + (Size (FrozenShelf sm) - Size (swept (FrozenShelf sm) h t3))
            + (Size (OverflowShelf sm) - Size (swept (OverflowShelf sm) h t4))
      in (n,
          sm\<lparr>HotShelf := swept (HotShelf sm) h t1,
             ColdShelf := swept (ColdShelf sm) h t2,
             FrozenShelf := swept (FrozenShelf sm) h t3,
             OverflowShelf := swept (OverflowShelf sm) h t4,
             TotalOrdersExpired := TotalOrdersExpired sm + n\<rparr>,
          w\<lparr>heap :=
              stampWasted (sweptRefs (Orders (OverflowShelf sm)) h t4) t4
                (stampWasted (sweptRefs (Orders (FrozenShelf sm)) h t3) t3
                  (stampWasted (sweptRefs (Orders (ColdShelf sm)) h t2) t2
                    (stampWasted (sweptRefs (Orders (HotShelf sm)) h t1) t1 h))),
            ticks := ticks w + 4\<rparr>))"
  by (simp add: ShelfManager_RemoveExpiredOrders_def Shelf_RemoveExpiredOrders_eq Size_def
      eval_nat_numeral
      Let_def)

text \<open>
  At lunch time, with the clock at seconds 40 to 43, the 20-second order on overflow is the
  only expired one.
\<close>

theorem ShelfManager_RemoveExpiredOrders_sweeps_witness:
  "fst (ShelfManager_RemoveExpiredOrders lunchShelves lunchWorld) = 1
   \<and> fmlookup (Orders (OverflowShelf (fst (snd (ShelfManager_RemoveExpiredOrders lunchShelves lunchWorld))))) ''2'' = None
   \<and> fmlookup (Orders (OverflowShelf (fst (snd (ShelfManager_RemoveExpiredOrders lunchShelves lunchWorld))))) ''3'' = Some 2
   \<and> fmlookup (Orders (HotShelf (fst (snd (ShelfManager_RemoveExpiredOrders lunchShelves lunchWorld))))) ''1'' = Some 0
   \<and> TotalOrdersExpired (fst (snd (ShelfManager_RemoveExpiredOrders lunchShelves lunchWorld))) = 1
   \<and> WastedAt (heap (snd (snd (ShelfManager_RemoveExpiredOrders lunchShelves lunchWorld))) 1) = 43 * Second
   \<and> heap (snd (snd (ShelfManager_RemoveExpiredOrders lunchShelves lunchWorld))) 0 = heap lunchWorld 0
   \<and> heap (snd (snd (ShelfManager_RemoveExpiredOrders lunchShelves lunchWorld))) 2 = heap lunchWorld 2"
  unfolding ShelfManager_RemoveExpiredOrders_sweeps [of lunchShelves lunchWorld]
  by code_simp

section \<open>Placement and the reconciliation of the counters\<close>

lemma AddOrder_full: "Capacity s \<le> len (Orders s) \<Longrightarrow> AddOrder s r w = (False, s, w)"
  by (simp add: AddOrder_def)

lemma AddOrder_room:
  assumes "len (Orders s) < Capacity s"
  shows "fst (AddOrder s r w)"
    and "Orders (fst (snd (AddOrder s r w))) = fmupd (ID (heap w r)) r (Orders s)"
    and "Capacity (fst (snd (AddOrder s r w))) = Capacity s"
    and "Type (fst (snd (AddOrder s r w))) = Type s"
    and "OrdersRemoved (stats (fst (snd (AddOrder s r w)))) = OrdersRemoved (stats s)"
    and "OrdersWasted (stats (fst (snd (AddOrder s r w)))) = OrdersWasted (stats s)"
    and "OrdersDelivered (stats (fst (snd (AddOrder s r w)))) = OrdersDelivered (stats s)"
  using assms by (simp_all add: AddOrder_def Let_def)

lemma AddOrder_frame:
  "ID (heap (snd (snd (AddOrder s r w))) r') = ID (heap w r')"
  "Temp (heap (snd (snd (AddOrder s r w))) r') = Temp (heap w r')"
  "WastedAt (heap (snd (snd (AddOrder s r w))) r') = WastedAt (heap w r')"
  "DeliveredAt (heap (snd (snd (AddOrder s r w))) r') = DeliveredAt (heap w r')"
  "clock (snd (snd (AddOrder s r w))) = clock w"
  by (simp_all add: AddOrder_def Let_def)

lemma AddOrder_overflow_stamp:
  "PlacedOnOverflow (heap (snd (snd (AddOrder s r w))) r') =
     (if fst (AddOrder s r w) \<and> r' = r \<and> Type s = OverflowShelf_type
         \<and> IsZero (PlacedOnOverflow (heap w r))
      then clock w (if IsZero (PlacedOnShelfAt (heap w r)) then Suc (ticks w) else ticks w)
      else PlacedOnOverflow (heap w r'))"
  by (simp add: AddOrder_def Let_def)

lemma len_fmupd_fresh: "fmlookup m k = None \<Longrightarrow> len (fmupd k v m) = len m + 1"
  by (simp add: len_def fcard_finsert_disjoint fmdom_notI)

lemma len_fmdrop_present: "fmlookup m k = Some v \<Longrightarrow> len (fmdrop k m) = len m - 1"
proof -
  assume "fmlookup m k = Some v"
  then have k: "k |\<in>| fmdom m" by (rule fmdomI)
  then have "Suc (fcard (fmdom m |-| {|k|})) = fcard (fmdom m)"
    by (rule fcard_Suc_fminus1)
  then have "int (fcard (fmdom m |-| {|k|})) = int (fcard (fmdom m)) - 1"
    by linarith
  then show ?thesis by (simp add: len_def)
qed

lemma shelfAt_received [simp]:
  "shelfAt (sm\<lparr>TotalOrdersReceived := n\<rparr>) p = shelfAt sm p"
  by (cases p) simp_all

lemma PlaceOrder_unrecognized:
  "GetShelfForTemperature (Temp (heap w r)) = None \<Longrightarrow>
   PlaceOrder sm r w =
     (False,
      sm\<lparr>TotalOrdersReceived := TotalOrdersReceived sm + 1,
         TotalOrdersWasted := TotalOrdersWasted sm + 1\<rparr>,
      w)"
  by (simp add: PlaceOrder_def Let_def)

lemma PlaceOrder_primary:
  "GetShelfForTemperature (Temp (heap w r)) = Some p \<Longrightarrow>
   len (Orders (shelfAt sm p)) < Capacity (shelfAt sm p) \<Longrightarrow>
   PlaceOrder sm r w =
     (True,
      setShelfAt p (fst (snd (AddOrder (shelfAt sm p) r w)))
        (sm\<lparr>TotalOrdersReceived := TotalOrdersReceived sm + 1\<rparr>),
      snd (snd (AddOrder (shelfAt sm p) r w)))"
  by (simp add: PlaceOrder_def Let_def case_prod_beta AddOrder_room)

lemma PlaceOrder_overflow:
  "GetShelfForTemperature (Temp (heap w r)) = Some p \<Longrightarrow>
   Capacity (shelfAt sm p) \<le> len (Orders (shelfAt sm p)) \<Longrightarrow>
   len (Orders (OverflowShelf sm)) < Capacity (OverflowShelf sm) \<Longrightarrow>
   PlaceOrder sm r w =
     (True,
      sm\<lparr>TotalOrdersReceived := TotalOrdersReceived sm + 1,
         OverflowShelf := fst (snd (AddOrder (OverflowShelf sm) r w))\<rparr>,
      (let w2 = snd (snd (AddOrder (OverflowShelf sm) r w))
       in modify r (\<lambda>o'. o'\<lparr>PlacedOnOverflow := clock w2 (ticks w2)\<rparr>)
            (w2\<lparr>ticks := Suc (ticks w2)\<rparr>)))"
  by (simp add: PlaceOrder_def Let_def case_prod_beta AddOrder_room AddOrder_full)

lemma PlaceOrder_wasted:
  "GetShelfForTemperature (Temp (heap w r)) = Some p \<Longrightarrow>
   Capacity (shelfAt sm p) \<le> len (Orders (shelfAt sm p)) \<Longrightarrow>
   Capacity (OverflowShelf sm) \<le> len (Orders (OverflowShelf sm)) \<Longrightarrow>
   PlaceOrder sm r w =
     (False,
      sm\<lparr>TotalOrdersReceived := TotalOrdersReceived sm + 1,
         TotalOrdersWasted := TotalOrdersWasted sm + 1\<rparr>,
      modify r (\<lambda>o'. o'\<lparr>WastedAt := clock w (ticks w)\<rparr>) (w\<lparr>ticks := Suc (ticks w)\<rparr>))"
  by (simp add: PlaceOrder_def Let_def case_prod_beta AddOrder_full)

lemma resident_shelfAt:
  "\<not> resident sm k \<Longrightarrow> fmlookup (Orders (shelfAt sm p)) k = None"
  by (cases p) (simp_all add: resident_def)

lemma reconciled_PlaceOrder:
  assumes rec: "reconciled sm" and fresh: "\<not> resident sm (ID (heap w r))"
  shows "reconciled (fst (snd (PlaceOrder sm r w)))"
proof (cases "GetShelfForTemperature (Temp (heap w r))")
  case None
  with rec show ?thesis
    by (simp add: PlaceOrder_unrecognized reconciled_def)
next
  case (Some p)
  show ?thesis
  proof (cases "len (Orders (shelfAt sm p)) < Capacity (shelfAt sm p)")
    case True
    have "Size (fst (snd (AddOrder (shelfAt sm p) r w))) = Size (shelfAt sm p) + 1"
      using True fresh by (simp add: Size_def AddOrder_room len_fmupd_fresh resident_shelfAt)
    with rec show ?thesis
      by (cases p) (simp_all add: PlaceOrder_primary [OF Some True] reconciled_def)
  next
    case False
    then have full: "Capacity (shelfAt sm p) \<le> len (Orders (shelfAt sm p))" by simp
    show ?thesis
    proof (cases "len (Orders (OverflowShelf sm)) < Capacity (OverflowShelf sm)")
      case True
      have "fmlookup (Orders (OverflowShelf sm)) (ID (heap w r)) = None"
        using fresh by (simp add: resident_def)
      then have "Size (fst (snd (AddOrder (OverflowShelf sm) r w))) = Size (OverflowShelf sm) + 1"
        using True by (simp add: Size_def AddOrder_room len_fmupd_fresh)
      with rec show ?thesis
        by (simp add: PlaceOrder_overflow [OF Some full True] reconciled_def)
    next
      case False
      then have "Capacity (OverflowShelf sm) \<le> len (Orders (OverflowShelf sm))" by simp
      with rec show ?thesis
        by (simp add: PlaceOrder_wasted [OF Some full] reconciled_def)
    qed
  qed
qed

lemma Size_delivered:
  "fmlookup (Orders s) k = Some r \<Longrightarrow> Size (delivered s k) = Size s - 1"
  by (simp add: Size_def delivered_def len_fmdrop_present)

lemma reconciled_DeliverOrder:
  assumes rec: "reconciled sm"
  shows "reconciled (fst (snd (DeliverOrder sm k w)))"
proof (cases "fmlookup (Orders (HotShelf sm)) k")
  case (Some r)
  with rec show ?thesis
    by (simp add: DeliverOrder_def deliverFromShelf_Some reconciled_def Size_delivered)
next
  case hot: None
  show ?thesis
  proof (cases "fmlookup (Orders (ColdShelf sm)) k")
    case (Some r)
    with rec hot show ?thesis
      by (simp add: DeliverOrder_def deliverFromShelf_Some deliverFromShelf_None
          reconciled_def Size_delivered)
  next
    case cold: None
    show ?thesis
    proof (cases "fmlookup (Orders (FrozenShelf sm)) k")
      case (Some r)
      with rec hot cold show ?thesis
        by (simp add: DeliverOrder_def deliverFromShelf_Some deliverFromShelf_None
            reconciled_def Size_delivered)
    next
      case frozen: None
      show ?thesis
      proof (cases "fmlookup (Orders (OverflowShelf sm)) k")
        case (Some r)
        with rec hot cold frozen show ?thesis
          by (simp add: DeliverOrder_def deliverFromShelf_Some deliverFromShelf_None
              reconciled_def Size_delivered)
      next
        case None
        with rec hot cold frozen show ?thesis
          by (simp add: DeliverOrder_def deliverFromShelf_None reconciled_def)
      qed
    qed
  qed
qed

lemma reconciled_RemoveExpiredOrders:
  assumes rec: "reconciled sm"
  shows "reconciled (fst (snd (ShelfManager_RemoveExpiredOrders sm w)))"
  using rec
  by (simp add: ShelfManager_RemoveExpiredOrders_def Shelf_RemoveExpiredOrders_eq
      reconciled_def Size_def Let_def)

lemma reconciled_managerCalls:
  "reconciled (fst st) \<Longrightarrow> placesNoResident cs st \<Longrightarrow> reconciled (fst (managerCalls cs st))"
proof (induction cs arbitrary: st)
  case Nil
  then show ?case by simp
next
  case (Cons c cs)
  obtain sm w where st: "st = (sm, w)" by (cases st)
  have "reconciled (fst (managerCall c st)) \<and> placesNoResident cs (managerCall c st)"
  proof (cases c)
    case (CallPlaceOrder r)
    with Cons.prems st show ?thesis
      by (simp add: reconciled_PlaceOrder)
  next
    case (CallDeliverOrder k)
    with Cons.prems st show ?thesis
      by (simp add: reconciled_DeliverOrder)
  next
    case CallSweep
    with Cons.prems st show ?thesis
      by (simp add: reconciled_RemoveExpiredOrders)
  qed
  then show ?case
    using Cons.IH by simp
qed

lemma placesNoResident_take:
  "placesNoResident cs st \<Longrightarrow> placesNoResident (take n cs) st"
proof (induction cs arbitrary: st n)
  case Nil
  then show ?case by simp
next
  case (Cons c cs)
  obtain sm w where st: "st = (sm, w)" by (cases st)
  show ?case
  proof (cases n)
    case 0
    then show ?thesis by simp
  next
    case (Suc m)
    with Cons st show ?thesis
      by (cases c) simp_all
  qed
qed

lemma reconciled_NewShelfManager: "reconciled (NewShelfManager a b c d)"
  by (simp add: reconciled_def NewShelfManager_def NewShelf_def Size_def len_def)

text \<open>
  C3, as amended. Start from a freshly constructed manager and make any sequence of
  \<^verbatim>\<open>PlaceOrder\<close>, \<^verbatim>\<open>DeliverOrder\<close> and \<^verbatim>\<open>RemoveExpiredOrders\<close> calls in which every order placed
  has an identifier that is on no shelf at the moment of its placement. Then after every
  completed call (after every prefix of the sequence) the total received equals the totals
  delivered, wasted and expired plus the occupancies of the four shelves.
\<close>

theorem reconciled_after_every_call:
  assumes "placesNoResident cs
             (NewShelfManager hotCapacity coldCapacity frozenCapacity overflowCapacity, w)"
  shows "reconciled
           (fst (managerCalls (take n cs)
                   (NewShelfManager hotCapacity coldCapacity frozenCapacity overflowCapacity, w)))"
proof -
  let ?start = "(NewShelfManager hotCapacity coldCapacity frozenCapacity overflowCapacity, w)"
  have "reconciled (fst ?start)"
    by (simp add: reconciled_NewShelfManager)
  moreover have "placesNoResident (take n cs) ?start"
    using assms by (rule placesNoResident_take)
  ultimately show ?thesis
    by (rule reconciled_managerCalls)
qed

text \<open>
  The short service on a manager with one slot per shelf: the equation holds after the third
  call and at the end, when 3 orders were received, 1 delivered, 1 wasted and 1 is on
  overflow.
\<close>

theorem reconciled_after_every_call_witness:
  "placesNoResident rush (NewShelfManager 1 1 1 1, kitchen)
   \<and> reconciled (fst (managerCalls (take 3 rush) (NewShelfManager 1 1 1 1, kitchen)))
   \<and> reconciled (fst (managerCalls rush (NewShelfManager 1 1 1 1, kitchen)))
   \<and> TotalOrdersReceived (fst (managerCalls rush (NewShelfManager 1 1 1 1, kitchen))) = 3
   \<and> TotalOrdersDelivered (fst (managerCalls rush (NewShelfManager 1 1 1 1, kitchen))) = 1
   \<and> TotalOrdersWasted (fst (managerCalls rush (NewShelfManager 1 1 1 1, kitchen))) = 1
   \<and> Size (OverflowShelf (fst (managerCalls rush (NewShelfManager 1 1 1 1, kitchen)))) = 1"
proof -
  have adm: "placesNoResident rush (NewShelfManager 1 1 1 1, kitchen)"
    by code_simp
  have three: "reconciled (fst (managerCalls (take 3 rush) (NewShelfManager 1 1 1 1, kitchen)))"
    using adm by (rule reconciled_after_every_call)
  have "reconciled (fst (managerCalls (take 5 rush) (NewShelfManager 1 1 1 1, kitchen)))"
    using adm by (rule reconciled_after_every_call)
  then have all: "reconciled (fst (managerCalls rush (NewShelfManager 1 1 1 1, kitchen)))"
    by (simp add: rush_def)
  have counts:
    "TotalOrdersReceived (fst (managerCalls rush (NewShelfManager 1 1 1 1, kitchen))) = 3
     \<and> TotalOrdersDelivered (fst (managerCalls rush (NewShelfManager 1 1 1 1, kitchen))) = 1
     \<and> TotalOrdersWasted (fst (managerCalls rush (NewShelfManager 1 1 1 1, kitchen))) = 1
     \<and> Size (OverflowShelf (fst (managerCalls rush (NewShelfManager 1 1 1 1, kitchen)))) = 1"
    by code_simp
  from adm three all counts show ?thesis by simp
qed

text \<open>
  The claim as stated fails when an order is placed twice: the second placement finds room on
  the hot shelf, stores the order under the identifier that is already there and counts one
  more received order, while the occupancy stays 1.
\<close>

theorem not_reconciled_after_double_placement:
  "TotalOrdersReceived (fst (managerCalls [CallPlaceOrder 0, CallPlaceOrder 0] (NewShelfManager 2 2 2 2, kitchen))) = 2
   \<and> TotalOrdersDelivered (fst (managerCalls [CallPlaceOrder 0, CallPlaceOrder 0] (NewShelfManager 2 2 2 2, kitchen))) = 0
   \<and> TotalOrdersWasted (fst (managerCalls [CallPlaceOrder 0, CallPlaceOrder 0] (NewShelfManager 2 2 2 2, kitchen))) = 0
   \<and> TotalOrdersExpired (fst (managerCalls [CallPlaceOrder 0, CallPlaceOrder 0] (NewShelfManager 2 2 2 2, kitchen))) = 0
   \<and> Size (HotShelf (fst (managerCalls [CallPlaceOrder 0, CallPlaceOrder 0] (NewShelfManager 2 2 2 2, kitchen)))) = 1
   \<and> Size (ColdShelf (fst (managerCalls [CallPlaceOrder 0, CallPlaceOrder 0] (NewShelfManager 2 2 2 2, kitchen)))) = 0
   \<and> Size (FrozenShelf (fst (managerCalls [CallPlaceOrder 0, CallPlaceOrder 0] (NewShelfManager 2 2 2 2, kitchen)))) = 0
   \<and> Size (OverflowShelf (fst (managerCalls [CallPlaceOrder 0, CallPlaceOrder 0] (NewShelfManager 2 2 2 2, kitchen)))) = 0
   \<and> \<not> reconciled (fst (managerCalls [CallPlaceOrder 0, CallPlaceOrder 0] (NewShelfManager 2 2 2 2, kitchen)))"
  by code_simp

section \<open>An order of an unknown temperature class\<close>

text \<open>
  C4 on the code. At lunch time an order of the unknown class \<open>lukewarm\<close> is refused and counted
  as wasted, but nothing is written to the store: its wasted timestamp stays unset. The hot
  order 4, refused because the hot shelf and overflow are full, is counted the same way and
  has its wasted timestamp set to the clock reading (second 40).
\<close>

theorem PlaceOrder_unrecognized_not_stamped:
  "GetShelfForTemperature (Temp (heap lunchWorld 3)) = None
   \<and> PlaceOrder lunchShelves 3 lunchWorld =
       (False,
        lunchShelves\<lparr>TotalOrdersReceived := TotalOrdersReceived lunchShelves + 1,
                     TotalOrdersWasted := TotalOrdersWasted lunchShelves + 1\<rparr>,
        lunchWorld)
   \<and> WastedAt (heap (snd (snd (PlaceOrder lunchShelves 3 lunchWorld))) 3) = 0
   \<and> fst (PlaceOrder lunchShelves 4 lunchWorld) = False
   \<and> TotalOrdersWasted (fst (snd (PlaceOrder lunchShelves 4 lunchWorld))) =
       TotalOrdersWasted lunchShelves + 1
   \<and> WastedAt (heap (snd (snd (PlaceOrder lunchShelves 4 lunchWorld))) 4) = 40 * Second"
proof -
  have t: "GetShelfForTemperature (Temp (heap lunchWorld 3)) = None"
    by code_simp
  have p: "PlaceOrder lunchShelves 3 lunchWorld =
       (False,
        lunchShelves\<lparr>TotalOrdersReceived := TotalOrdersReceived lunchShelves + 1,
                     TotalOrdersWasted := TotalOrdersWasted lunchShelves + 1\<rparr>,
        lunchWorld)"
    using t by (rule PlaceOrder_unrecognized)
  have z: "WastedAt (heap lunchWorld 3) = 0"
    by code_simp
  have full:
    "fst (PlaceOrder lunchShelves 4 lunchWorld) = False
     \<and> TotalOrdersWasted (fst (snd (PlaceOrder lunchShelves 4 lunchWorld))) =
         TotalOrdersWasted lunchShelves + 1
     \<and> WastedAt (heap (snd (snd (PlaceOrder lunchShelves 4 lunchWorld))) 4) = 40 * Second"
    by code_simp
  from t p z full show ?thesis by simp
qed

section \<open>Capacity\<close>

lemma len_nonneg: "0 \<le> len m"
  by (simp add: len_def)

lemma len_fmupd_le: "len (fmupd k v m) \<le> len m + 1"
  by (simp add: len_def fcard_finsert_if)

lemma len_fmdrop_le: "len (fmdrop k m) \<le> len m"
  by (simp add: len_def fcard_fminus1_le)

lemma len_fmfilter_le: "len (fmfilter P m) \<le> len m"
proof -
  have "ffilter P (fmdom m) |\<subseteq>| fmdom m" by auto
  then show ?thesis by (simp add: len_def fcard_mono)
qed

lemma len_fmempty [simp]: "len fmempty = 0"
  by (simp add: len_def)

lemma AddOrder_removed:
  "OrdersRemoved (stats (fst (snd (AddOrder s r w)))) = OrdersRemoved (stats s)"
  by (simp add: AddOrder_def Let_def)

lemma AddOrder_Capacity: "Capacity (fst (snd (AddOrder s r w))) = Capacity s"
  by (simp add: AddOrder_def Let_def)

lemma AddOrder_within:
  "Size s \<le> Capacity s \<Longrightarrow> Size (fst (snd (AddOrder s r w))) \<le> Capacity s"
proof (cases "len (Orders s) < Capacity s")
  case True
  then show ?thesis
    using len_fmupd_le [of "ID (heap w r)" r "Orders s"]
    by (simp add: Size_def AddOrder_room)
next
  case False
  then show "Size s \<le> Capacity s \<Longrightarrow> ?thesis"
    by (simp add: AddOrder_full)
qed

lemma shelfCall_within:
  assumes "Size s \<le> Capacity s"
  shows "Size (fst (shelfCall c (s, w))) \<le> Capacity s
         \<and> Capacity (fst (shelfCall c (s, w))) = Capacity s"
proof (cases c)
  case (CallAddOrder r)
  with assms show ?thesis
    by (simp add: AddOrder_within AddOrder_Capacity)
next
  case (CallRemoveOrder k)
  with assms len_fmdrop_le [of k "Orders s"] show ?thesis
    by (auto simp: RemoveOrder_def Size_def split: option.splits)
next
  case (CallMarkOrderDelivered k)
  with assms len_fmdrop_le [of k "Orders s"] show ?thesis
    by (auto simp: MarkOrderDelivered_def Size_def Let_def split: option.splits)
next
  case CallRemoveExpiredOrders
  with assms
    len_fmfilter_le [of "\<lambda>k. \<not> expiredOn (Orders s) (heap w) (clock w (ticks w)) k" "Orders s"]
  show ?thesis
    by (simp add: Shelf_RemoveExpiredOrders_eq swept_def Size_def Let_def)
qed

lemma shelfCalls_within:
  "Size (fst st) \<le> Capacity (fst st) \<Longrightarrow>
   Size (fst (shelfCalls cs st)) \<le> Capacity (fst st)
   \<and> Capacity (fst (shelfCalls cs st)) = Capacity (fst st)"
proof (induction cs arbitrary: st)
  case Nil
  then show ?case by simp
next
  case (Cons c cs)
  obtain s w where st: "st = (s, w)" by (cases st)
  from Cons.prems st have step:
    "Size (fst (shelfCall c (s, w))) \<le> Capacity s
     \<and> Capacity (fst (shelfCall c (s, w))) = Capacity s"
    by (simp add: shelfCall_within)
  then have "Size (fst (shelfCall c (s, w))) \<le> Capacity (fst (shelfCall c (s, w)))"
    by simp
  from Cons.IH [OF this] step st show ?case by simp
qed

lemma AddOrders_Cons:
  "AddOrders (r # rs) s w =
     (fst (AddOrder s r w)
        # fst (AddOrders rs (fst (snd (AddOrder s r w))) (snd (snd (AddOrder s r w)))),
      snd (AddOrders rs (fst (snd (AddOrder s r w))) (snd (snd (AddOrder s r w)))))"
  by (simp add: case_prod_beta Let_def)

declare AddOrders.simps(2) [simp del]

lemma AddOrders_append:
  "AddOrders (xs @ ys) s w =
     (fst (AddOrders xs s w)
        @ fst (AddOrders ys (fst (snd (AddOrders xs s w))) (snd (snd (AddOrders xs s w)))),
      snd (AddOrders ys (fst (snd (AddOrders xs s w))) (snd (snd (AddOrders xs s w)))))"
proof (induction xs arbitrary: s w)
  case Nil
  show ?case by simp
next
  case (Cons x xs)
  show ?case
    by (simp only: append_Cons AddOrders_Cons Cons.IH fst_conv snd_conv)
qed

lemma AddOrders_all_succeed:
  assumes "distinct (map (\<lambda>x. ID (heap w x)) rs)"
    and "\<forall>x \<in> set rs. fmlookup (Orders s) (ID (heap w x)) = None"
    and "len (Orders s) + int (length rs) \<le> Capacity s"
  shows "fst (AddOrders rs s w) = replicate (length rs) True
         \<and> len (Orders (fst (snd (AddOrders rs s w)))) = len (Orders s) + int (length rs)
         \<and> Capacity (fst (snd (AddOrders rs s w))) = Capacity s"
  using assms
proof (induction rs arbitrary: s w)
  case Nil
  show ?case by simp
next
  case (Cons r rs)
  let ?s1 = "fst (snd (AddOrder s r w))"
  let ?w1 = "snd (snd (AddOrder s r w))"
  from Cons.prems(3) have room: "len (Orders s) < Capacity s"
    by simp
  have ords: "Orders ?s1 = fmupd (ID (heap w r)) r (Orders s)"
    using room by (simp add: AddOrder_room)
  have cap: "Capacity ?s1 = Capacity s"
    by (simp add: AddOrder_Capacity)
  have fresh: "fmlookup (Orders s) (ID (heap w r)) = None"
    using Cons.prems(2) by simp
  have len1: "len (Orders ?s1) = len (Orders s) + 1"
    using fresh by (simp add: ords len_fmupd_fresh)
  have d: "distinct (map (\<lambda>x. ID (heap ?w1 x)) rs)"
    using Cons.prems(1) by (simp add: AddOrder_frame)
  have n: "\<forall>x \<in> set rs. fmlookup (Orders ?s1) (ID (heap ?w1 x)) = None"
    using Cons.prems(1,2) by (auto simp: AddOrder_frame ords)
  have l: "len (Orders ?s1) + int (length rs) \<le> Capacity ?s1"
    using Cons.prems(3) by (simp add: len1 cap)
  from Cons.IH [OF d n l] room show ?case
    by (simp add: AddOrders_Cons AddOrder_room fresh len_fmupd_fresh)
qed

text \<open>
  C2, as amended. \<^verbatim>\<open>AddOrder\<close> returns false and changes nothing when the resident count has
  reached the capacity. A shelf whose resident count is within its capacity stays within it,
  and keeps its capacity, through every sequence of \<^verbatim>\<open>AddOrder\<close>, \<^verbatim>\<open>RemoveOrder\<close>,
  \<^verbatim>\<open>MarkOrderDelivered\<close> and \<^verbatim>\<open>RemoveExpiredOrders\<close> calls; so does a new shelf of a capacity that
  is not negative. On an empty shelf of capacity \<open>C\<close>, \<open>C\<close> consecutive \<^verbatim>\<open>AddOrder\<close> calls for
  orders with pairwise distinct identifiers succeed and bring the occupancy to \<open>C\<close>, and the
  call after them fails and leaves the shelf and the store as they are.
\<close>

theorem AddOrder_respects_capacity:
  "(Capacity s \<le> Size s \<longrightarrow> AddOrder s r w = (False, s, w))
   \<and> (Size s \<le> Capacity s \<longrightarrow>
        Size (fst (shelfCalls cs (s, w))) \<le> Capacity s
        \<and> Capacity (fst (shelfCalls cs (s, w))) = Capacity s)
   \<and> (0 \<le> capacity \<longrightarrow>
        Size (fst (shelfCalls cs (NewShelf shelfType capacity, w))) \<le> capacity)
   \<and> (distinct (map (\<lambda>x. ID (heap w x)) rs) \<longrightarrow>
        fst (AddOrders (rs @ [r]) (NewShelf shelfType (int (length rs))) w)
          = replicate (length rs) True @ [False]
        \<and> Size (fst (snd (AddOrders rs (NewShelf shelfType (int (length rs))) w)))
          = int (length rs)
        \<and> snd (AddOrders (rs @ [r]) (NewShelf shelfType (int (length rs))) w)
          = snd (AddOrders rs (NewShelf shelfType (int (length rs))) w))"
proof (intro conjI impI)
  show "AddOrder s r w = (False, s, w)" if "Capacity s \<le> Size s"
    using that by (simp add: Size_def AddOrder_full)
next
  assume "Size s \<le> Capacity s"
  then have "Size (fst (shelfCalls cs (s, w))) \<le> Capacity (fst (s, w))
      \<and> Capacity (fst (shelfCalls cs (s, w))) = Capacity (fst (s, w))"
    by (intro shelfCalls_within) simp
  then show "Size (fst (shelfCalls cs (s, w))) \<le> Capacity s"
    and "Capacity (fst (shelfCalls cs (s, w))) = Capacity s"
    by simp_all
next
  assume "0 \<le> capacity"
  then have "Size (fst (NewShelf shelfType capacity, w))
      \<le> Capacity (fst (NewShelf shelfType capacity, w))"
    by (simp add: NewShelf_def Size_def)
  from shelfCalls_within [OF this, of cs]
  show "Size (fst (shelfCalls cs (NewShelf shelfType capacity, w))) \<le> capacity"
    by (simp add: NewShelf_def)
next
  assume d: "distinct (map (\<lambda>x. ID (heap w x)) rs)"
  let ?s = "NewShelf shelfType (int (length rs))"
  have "fst (AddOrders rs ?s w) = replicate (length rs) True
         \<and> len (Orders (fst (snd (AddOrders rs ?s w)))) = len (Orders ?s) + int (length rs)
         \<and> Capacity (fst (snd (AddOrders rs ?s w))) = Capacity ?s"
    using d by (intro AddOrders_all_succeed) (simp_all add: NewShelf_def)
  then have ok: "fst (AddOrders rs ?s w) = replicate (length rs) True"
    and full: "len (Orders (fst (snd (AddOrders rs ?s w)))) = int (length rs)"
    and cap: "Capacity (fst (snd (AddOrders rs ?s w))) = int (length rs)"
    by (simp_all add: NewShelf_def)
  have last: "AddOrder (fst (snd (AddOrders rs ?s w))) r (snd (snd (AddOrders rs ?s w)))
      = (False, fst (snd (AddOrders rs ?s w)), snd (snd (AddOrders rs ?s w)))"
    by (rule AddOrder_full) (simp add: full cap)
  show "fst (AddOrders (rs @ [r]) ?s w) = replicate (length rs) True @ [False]"
    by (simp add: AddOrders_append AddOrders_Cons ok last)
  show "Size (fst (snd (AddOrders rs ?s w))) = int (length rs)"
    by (simp add: Size_def full)
  show "snd (AddOrders (rs @ [r]) ?s w) = snd (AddOrders rs ?s w)"
    by (simp add: AddOrders_append AddOrders_Cons last)
qed

text \<open>
  The full hot shelf of lunch time refuses one more order; an empty shelf of capacity 2
  accepts the orders 0 and 1 and refuses the order 2.
\<close>

theorem AddOrder_respects_capacity_witness:
  "AddOrder (HotShelf lunchShelves) 4 lunchWorld = (False, HotShelf lunchShelves, lunchWorld)
   \<and> fst (AddOrders [0, 1, 2] (NewShelf HotShelf_type 2) kitchen) = [True, True, False]
   \<and> Size (fst (snd (AddOrders [0, 1] (NewShelf HotShelf_type 2) kitchen))) = 2
   \<and> snd (AddOrders [0, 1, 2] (NewShelf HotShelf_type 2) kitchen)
     = snd (AddOrders [0, 1] (NewShelf HotShelf_type 2) kitchen)
   \<and> Size (fst (shelfCalls [CallAddOrder 0, CallAddOrder 1, CallAddOrder 2]
                  (NewShelf HotShelf_type 2, kitchen))) \<le> 2"
proof -
  have full: "Capacity (HotShelf lunchShelves) \<le> Size (HotShelf lunchShelves)"
    by code_simp
  have d: "distinct (map (\<lambda>x. ID (heap kitchen x)) [0, 1])"
    by code_simp
  have c: "(0::int) \<le> 2" by simp
  from AddOrder_respects_capacity
    [of "HotShelf lunchShelves" 4 lunchWorld] full
  have one: "AddOrder (HotShelf lunchShelves) 4 lunchWorld
      = (False, HotShelf lunchShelves, lunchWorld)"
    by blast
  from AddOrder_respects_capacity
    [of "HotShelf lunchShelves" 2 kitchen "[CallAddOrder 0, CallAddOrder 1, CallAddOrder 2]"
        2 HotShelf_type "[0, 1]"] d c
  have two: "Size (fst (shelfCalls [CallAddOrder 0, CallAddOrder 1, CallAddOrder 2]
                  (NewShelf HotShelf_type 2, kitchen))) \<le> 2
     \<and> fst (AddOrders ([0, 1] @ [2]) (NewShelf HotShelf_type (int (length [0::nat, 1]))) kitchen)
       = replicate (length [0::nat, 1]) True @ [False]
     \<and> Size (fst (snd (AddOrders [0, 1] (NewShelf HotShelf_type (int (length [0::nat, 1]))) kitchen)))
       = int (length [0::nat, 1])
     \<and> snd (AddOrders ([0, 1] @ [2]) (NewShelf HotShelf_type (int (length [0::nat, 1]))) kitchen)
       = snd (AddOrders [0, 1] (NewShelf HotShelf_type (int (length [0::nat, 1]))) kitchen)"
    by blast
  have l: "int (length [0::nat, 1]) = 2" "replicate (length [0::nat, 1]) True @ [False] = [True, True, False]"
    "[0::nat, 1] @ [2] = [0, 1, 2]"
    by (simp_all add: eval_nat_numeral)
  from one two show ?thesis
    unfolding l by simp
qed

text \<open>
  The claim as stated fails when the calls repeat an identifier: on an empty shelf of capacity
  2 the order 0 is added twice, both calls succeed and the occupancy is 1, so the third call
  succeeds as well.
\<close>

theorem AddOrder_same_identifier_twice:
  "fst (AddOrders [0, 0, 1] (NewShelf HotShelf_type 2) kitchen) = [True, True, True]
   \<and> Size (fst (snd (AddOrders [0, 0] (NewShelf HotShelf_type 2) kitchen))) = 1
   \<and> Size (fst (snd (AddOrders [0, 0, 1] (NewShelf HotShelf_type 2) kitchen))) = 2"
  by code_simp

section \<open>The overflow timestamp\<close>

text \<open>
  C5 on the code. After the delivery a slot of overflow is free and the hot shelf is still
  full. Placing the fresh order 4: the hot shelf refuses it, \<^verbatim>\<open>AddOrder\<close> on overflow sets its
  overflow timestamp (second 42), and \<^verbatim>\<open>PlaceOrder\<close> then sets it again (second 43). Placing
  the order at the reference 2 once more, which was on overflow since second 16: \<^verbatim>\<open>AddOrder\<close>
  on overflow leaves the timestamp as it is, and \<^verbatim>\<open>PlaceOrder\<close> overwrites it (second 41).
\<close>

theorem PlaceOrder_overwrites_overflow_stamp:
  "fst (AddOrder (HotShelf (fst afterDelivery)) 4 (snd afterDelivery)) = False
   \<and> PlacedOnOverflow (heap (snd afterDelivery) 4) = 0
   \<and> fst (AddOrder (OverflowShelf (fst afterDelivery)) 4 (snd afterDelivery)) = True
   \<and> PlacedOnOverflow
        (heap (snd (snd (AddOrder (OverflowShelf (fst afterDelivery)) 4 (snd afterDelivery)))) 4)
      = 42 * Second
   \<and> fst (PlaceOrder (fst afterDelivery) 4 (snd afterDelivery)) = True
   \<and> PlacedOnOverflow (heap (snd (snd (PlaceOrder (fst afterDelivery) 4 (snd afterDelivery)))) 4)
      = 43 * Second
   \<and> PlacedOnOverflow (heap (snd afterDelivery) 2) = 16 * Second
   \<and> PlacedOnOverflow
        (heap (snd (snd (AddOrder (OverflowShelf (fst afterDelivery)) 2 (snd afterDelivery)))) 2)
      = 16 * Second
   \<and> fst (PlaceOrder (fst afterDelivery) 2 (snd afterDelivery)) = True
   \<and> PlacedOnOverflow (heap (snd (snd (PlaceOrder (fst afterDelivery) 2 (snd afterDelivery)))) 2)
      = 41 * Second"
  by code_simp

section \<open>The statistics of a shelf\<close>

lemma shelfCall_removed:
  "OrdersRemoved (stats (fst (shelfCall c (s, w))))
     = OrdersRemoved (stats s) + (if isRemoval c (s, w) then 1 else 0)"
proof (cases c)
  case (CallAddOrder r)
  then show ?thesis by (simp add: AddOrder_removed)
next
  case (CallRemoveOrder k)
  then show ?thesis by (simp add: RemoveOrder_def split: option.splits)
next
  case (CallMarkOrderDelivered k)
  then show ?thesis by (simp add: MarkOrderDelivered_def Let_def split: option.splits)
next
  case CallRemoveExpiredOrders
  then show ?thesis by (simp add: Shelf_RemoveExpiredOrders_eq swept_def Let_def)
qed

lemma shelfCalls_removed:
  "OrdersRemoved (stats (fst (shelfCalls cs st)))
     = OrdersRemoved (stats (fst st)) + successfulRemovals cs st"
proof (induction cs arbitrary: st)
  case Nil
  show ?case by simp
next
  case (Cons c cs)
  obtain s w where st: "st = (s, w)" by (cases st)
  show ?case
    using Cons.IH [of "shelfCall c (s, w)"] shelfCall_removed [of c s w]
    by (simp add: st)
qed

text \<open>
  C10. An expiry sweep of a shelf adds the number of orders it removes to the wasted statistic
  and leaves the removed statistic as it is. Through any sequence of calls on a shelf the
  removed statistic grows by the number of \<^verbatim>\<open>RemoveOrder\<close> and \<^verbatim>\<open>MarkOrderDelivered\<close> calls that
  succeed, so on a shelf that started new it equals this number.
\<close>

theorem expiry_sweep_not_counted_as_removal:
  "OrdersWasted (stats (fst (snd (Shelf_RemoveExpiredOrders s w))))
     = OrdersWasted (stats s) + fst (Shelf_RemoveExpiredOrders s w)
   \<and> fst (Shelf_RemoveExpiredOrders s w)
     = Size s - Size (fst (snd (Shelf_RemoveExpiredOrders s w)))
   \<and> OrdersRemoved (stats (fst (snd (Shelf_RemoveExpiredOrders s w)))) = OrdersRemoved (stats s)
   \<and> OrdersRemoved (stats (fst (shelfCalls cs (s, w))))
     = OrdersRemoved (stats s) + successfulRemovals cs (s, w)
   \<and> OrdersRemoved (stats (fst (shelfCalls cs (NewShelf shelfType capacity, w))))
     = successfulRemovals cs (NewShelf shelfType capacity, w)"
proof (intro conjI)
  show "OrdersWasted (stats (fst (snd (Shelf_RemoveExpiredOrders s w))))
     = OrdersWasted (stats s) + fst (Shelf_RemoveExpiredOrders s w)"
    by (simp add: Shelf_RemoveExpiredOrders_eq swept_def Let_def)
  show "fst (Shelf_RemoveExpiredOrders s w)
     = Size s - Size (fst (snd (Shelf_RemoveExpiredOrders s w)))"
    by (simp add: Shelf_RemoveExpiredOrders_eq Size_def)
  show "OrdersRemoved (stats (fst (snd (Shelf_RemoveExpiredOrders s w)))) = OrdersRemoved (stats s)"
    by (simp add: Shelf_RemoveExpiredOrders_eq swept_def Let_def)
  show "OrdersRemoved (stats (fst (shelfCalls cs (s, w))))
     = OrdersRemoved (stats s) + successfulRemovals cs (s, w)"
    using shelfCalls_removed [of cs "(s, w)"] by simp
  show "OrdersRemoved (stats (fst (shelfCalls cs (NewShelf shelfType capacity, w))))
     = successfulRemovals cs (NewShelf shelfType capacity, w)"
    using shelfCalls_removed [of cs "(NewShelf shelfType capacity, w)"]
    by (simp add: NewShelf_def)
qed

text \<open>
  The shift on a new shelf: the sweep removes the 20-second order (one wasted), the first
  delivery succeeds (one removed) and the last two calls find nothing.
\<close>

theorem expiry_sweep_not_counted_as_removal_witness:
  "OrdersRemoved (stats (fst (shelfCalls shift (NewShelf OverflowShelf_type 2, slowKitchen)))) = 1
   \<and> successfulRemovals shift (NewShelf OverflowShelf_type 2, slowKitchen) = 1
   \<and> OrdersWasted (stats (fst (shelfCalls shift (NewShelf OverflowShelf_type 2, slowKitchen)))) = 1
   \<and> OrdersAdded (stats (fst (shelfCalls shift (NewShelf OverflowShelf_type 2, slowKitchen)))) = 2
   \<and> Size (fst (shelfCalls shift (NewShelf OverflowShelf_type 2, slowKitchen))) = 0"
proof -
  have n: "successfulRemovals shift (NewShelf OverflowShelf_type 2, slowKitchen) = 1"
    by code_simp
  have r: "OrdersRemoved (stats (fst (shelfCalls shift (NewShelf OverflowShelf_type 2, slowKitchen)))) = 1"
    using expiry_sweep_not_counted_as_removal
      [of "NewShelf OverflowShelf_type 2" slowKitchen shift OverflowShelf_type 2] n
    by simp
  have o:
    "OrdersWasted (stats (fst (shelfCalls shift (NewShelf OverflowShelf_type 2, slowKitchen)))) = 1
     \<and> OrdersAdded (stats (fst (shelfCalls shift (NewShelf OverflowShelf_type 2, slowKitchen)))) = 2
     \<and> Size (fst (shelfCalls shift (NewShelf OverflowShelf_type 2, slowKitchen))) = 0"
    by code_simp
  from n r o show ?thesis by simp
qed

end
